theory Spec2Isabelle
  imports Complex_Main
begin

section \<open>Collaborators of the evaluation module\<close>

text \<open>
  The modules \<open>ragrank.dataset\<close>, \<open>ragrank.metric\<close>, \<open>ragrank.llm\<close> and
  \<open>ragrank.bridge.pydantic\<close> are imported by \<open>evaluation/base.py\<close> and
  \<open>evaluation/outputs.py\<close> but are not part of the sources at hand. What the two
  modules need of them is written down here. Python floats are read as real numbers:
  the code only compares one of them with \<open>0\<close> and stores the others.
\<close>

text \<open>
  Modelled from the spec: the class \<open>DataNode\<close> of \<open>ragrank.dataset\<close> is missing.
  Spec section 3: a Record has the fields question (text), context (ordered sequence
  of text) and response (text).
\<close>

record DataNode =
  question :: string
  context_texts :: "string list"
  response :: string

text \<open>
  Modelled from the spec: the class \<open>Dataset\<close> of \<open>ragrank.dataset\<close> is missing.
  Spec section 3: a Dataset is an ordered sequence of Records with a well-defined
  length. \<open>len(dataset)\<close> is \<open>length\<close>.
\<close>

type_synonym Dataset = "DataNode list"

text \<open>
  What a failing call raises. \<open>ValidationError\<close> is what the pydantic model raises
  at construction: either a declared field constraint fails (\<open>Field(gt=0)\<close>), or
  the model validator raised a \<open>ValueError\<close> with a message. Everything the
  collaborators raise travels through \<open>evaluate\<close> unchanged as \<open>Propagated\<close>;
  \<open>IndexError\<close> is Python's out-of-range subscript.
\<close>

datatype error_detail = GreaterThan string | ValueError string

datatype error = ValidationError error_detail | Propagated string | IndexError

text \<open>
  A metric (\<open>BaseMetric\<close>): its \<open>name\<close> and the scoring capability. The field
  \<open>score\<close> stands for the expression \<open>metric.score(datanode).score\<close> of the
  source, which either raises or yields a float.
\<close>

record Metric =
  name :: string
  score :: "DataNode \<Rightarrow> error + real"

section \<open>\<open>evaluation/outputs.py\<close>: the class \<open>EvalResult\<close>\<close>

record 'llm EvalResult =
  llm :: 'llm
  metrics :: "Metric list"
  dataset :: Dataset
  scores :: "real list list"
  response_time :: real

definition metrics_scores_message :: string where
  "metrics_scores_message =
     ''The number of metrics and number of scores is not equal. \<newline>'' @
     ''Ensure that each metric has a corresponding score.''"

definition datapoints_scores_message :: string where
  "datapoints_scores_message =
     ''The number of datapoints and scores are not balanced. \<newline>'' @
     ''Ensure that each score list has the same '' @
     ''length as dataset.''"

text \<open>The loop \<open>for score in self.scores\<close> of the validator.\<close>

fun check_scores :: "nat \<Rightarrow> real list list \<Rightarrow> error + unit" where
  "check_scores dataset_size [] = Inr ()"
| "check_scores dataset_size (score_list # rest) =
     (if length score_list \<noteq> dataset_size
      then Inl (ValidationError (ValueError datapoints_scores_message))
      else check_scores dataset_size rest)"

definition validator :: "'llm EvalResult \<Rightarrow> error + 'llm EvalResult" where
  "validator self =
     (if length (metrics self) \<noteq> length (scores self)
      then Inl (ValidationError (ValueError metrics_scores_message))
      else
        (let dataset_size = length (dataset self) in
         case check_scores dataset_size (scores self) of
           Inl e \<Rightarrow> Inl e
         | Inr _ \<Rightarrow> Inr self))"

text \<open>
  Construction \<open>EvalResult(llm=..., metrics=..., dataset=..., response_time=...,
  scores=...)\<close>. The pydantic base class first validates the declared fields, of which
  only \<open>response_time: float = Field(gt=0)\<close> carries a constraint, and runs the
  \<open>mode="after"\<close> model validator on the populated object only when the fields
  passed.
\<close>

definition EvalResult_init ::
  "'llm \<Rightarrow> Metric list \<Rightarrow> Dataset \<Rightarrow> real \<Rightarrow> real list list \<Rightarrow> error + 'llm EvalResult" where
  "EvalResult_init l ms d rt ss =
     (if \<not> rt > 0 then Inl (ValidationError (GreaterThan ''response_time''))
      else validator \<lparr>llm = l, metrics = ms, dataset = d, scores = ss, response_time = rt\<rparr>)"

text \<open>
  Item assignment \<open>d[k] = v\<close> on an insertion-ordered container with unique keys:
  a Python \<open>dict\<close> (the dict comprehension of \<open>__repr__\<close> performs one such
  assignment per metric) and the columns of a pandas \<open>DataFrame\<close>. A key that is
  present keeps its position and takes the new value; a new key goes to the end.
\<close>

fun setitem :: "'k \<Rightarrow> 'v \<Rightarrow> ('k \<times> 'v) list \<Rightarrow> ('k \<times> 'v) list" where
  "setitem k v [] = [(k, v)]"
| "setitem k v ((k', v') # rest) =
     (if k' = k then (k', v) # rest else (k', v') # setitem k v rest)"

text \<open>
  A pandas \<open>DataFrame\<close> as far as \<open>to_dataframe\<close> uses it: the number of rows
  (the length of the index) and the named columns in order. A cell holds a text, a
  sequence of texts or a number.
\<close>

datatype cell = Text string | TextList "string list" | Number real

record DataFrame =
  index_size :: nat
  columns :: "(string \<times> cell list) list"

text \<open>
  Modelled from the spec: the method \<open>Dataset.to_dataframe\<close> of \<open>ragrank.dataset\<close>
  is missing. Spec section 3: the Dataset is convertible to a tabular structure, rows
  are the records and columns are the fields question, context and response.
\<close>

definition Dataset_to_dataframe :: "Dataset \<Rightarrow> DataFrame" where
  "Dataset_to_dataframe d =
     \<lparr>index_size = length d,
      columns =
        [(''question'', map (\<lambda>node. Text (question node)) d),
         (''context'', map (\<lambda>node. TextList (context_texts node)) d),
         (''response'', map (\<lambda>node. Text (response node)) d)]\<rparr>"

text \<open>
  The pandas statement \<open>df[key] = values\<close> for a list of values: pandas raises when
  the list is not as long as the index, and sets the column otherwise.
\<close>

definition df_setitem :: "DataFrame \<Rightarrow> string \<Rightarrow> cell list \<Rightarrow> error + DataFrame" where
  "df_setitem df key vals =
     (if length vals \<noteq> index_size df
      then Inl (Propagated ''Length of values does not match length of index'')
      else Inr (df\<lparr>columns := setitem key vals (columns df)\<rparr>))"

text \<open>
  The loop \<open>for i in range(len(self.metrics)): df[self.metrics[i].name] = self.scores[i]\<close>
  over the remaining indices; a subscript out of range raises \<open>IndexError\<close>.
\<close>

fun to_dataframe_loop :: "'llm EvalResult \<Rightarrow> nat list \<Rightarrow> DataFrame \<Rightarrow> error + DataFrame" where
  "to_dataframe_loop self [] df = Inr df"
| "to_dataframe_loop self (i # rest) df =
     (if i < length (metrics self) \<and> i < length (scores self)
      then
        (case df_setitem df (name (metrics self ! i)) (map Number (scores self ! i)) of
           Inl e \<Rightarrow> Inl e
         | Inr df' \<Rightarrow> to_dataframe_loop self rest df')
      else Inl IndexError)"

definition to_dataframe :: "'llm EvalResult \<Rightarrow> error + DataFrame" where
  "to_dataframe self =
     to_dataframe_loop self [0..<length (metrics self)] (Dataset_to_dataframe (dataset self))"

text \<open>
  \<open>__repr__\<close>: the inner dict comprehension over \<open>k in range(len(self.metrics))\<close>
  for one record index \<open>i\<close>, started from the empty dict, and the outer list
  comprehension over \<open>i in range(len(self.dataset))\<close>.
\<close>

fun repr_dict ::
  "'llm EvalResult \<Rightarrow> nat \<Rightarrow> nat list \<Rightarrow> (string \<times> real) list \<Rightarrow> error + (string \<times> real) list" where
  "repr_dict self i [] d = Inr d"
| "repr_dict self i (k # rest) d =
     (if k < length (metrics self) \<and> k < length (scores self) \<and> i < length (scores self ! k)
      then repr_dict self i rest (setitem (name (metrics self ! k)) (scores self ! k ! i) d)
      else Inl IndexError)"

fun repr_list :: "'llm EvalResult \<Rightarrow> nat list \<Rightarrow> error + (string \<times> real) list list" where
  "repr_list self [] = Inr []"
| "repr_list self (i # rest) =
     (case repr_dict self i [0..<length (metrics self)] [] of
        Inl e \<Rightarrow> Inl e
      | Inr d \<Rightarrow>
          (case repr_list self rest of
             Inl e \<Rightarrow> Inl e
           | Inr ds \<Rightarrow> Inr (d # ds)))"

definition repr_data :: "'llm EvalResult \<Rightarrow> error + (string \<times> real) list list" where
  "repr_data self = repr_list self [0..<length (dataset self)]"

text \<open>
  \<open>str(data)\<close> for a list of dicts from text to float. How Python prints a text
  key and a float (\<open>repr\<close> of each) is taken as given: \<open>str_repr\<close> and
  \<open>float_repr\<close>.
\<close>

fun join :: "string \<Rightarrow> string list \<Rightarrow> string" where
  "join sep [] = []"
| "join sep [x] = x"
| "join sep (x # y # rest) = x @ sep @ join sep (y # rest)"

definition dict_str :: "(string \<Rightarrow> string) \<Rightarrow> (real \<Rightarrow> string) \<Rightarrow> (string \<times> real) list \<Rightarrow> string" where
  "dict_str str_repr float_repr d =
     ''{'' @ join '', '' (map (\<lambda>(k, v). str_repr k @ '': '' @ float_repr v) d) @ ''}''"

definition list_str ::
  "(string \<Rightarrow> string) \<Rightarrow> (real \<Rightarrow> string) \<Rightarrow> (string \<times> real) list list \<Rightarrow> string" where
  "list_str str_repr float_repr ds =
     ''['' @ join '', '' (map (dict_str str_repr float_repr) ds) @ '']''"

definition EvalResult_repr ::
  "(string \<Rightarrow> string) \<Rightarrow> (real \<Rightarrow> string) \<Rightarrow> 'llm EvalResult \<Rightarrow> error + string" where
  "EvalResult_repr str_repr float_repr self =
     (case repr_data self of
        Inl e \<Rightarrow> Inl e
      | Inr data \<Rightarrow> Inr (list_str str_repr float_repr data))"

definition EvalResult_str ::
  "(string \<Rightarrow> string) \<Rightarrow> (real \<Rightarrow> string) \<Rightarrow> 'llm EvalResult \<Rightarrow> error + string" where
  "EvalResult_str str_repr float_repr self = EvalResult_repr str_repr float_repr self"

section \<open>\<open>evaluation/base.py\<close>: the function \<open>evaluate\<close>\<close>

text \<open>
  The argument \<open>data: Dataset | DataNode | dict\<close>. A dict is a mapping from text
  keys to Python values: a text, a sequence of texts, or anything else.
  \<open>from_dict\<close> is annotated to return a Dataset or a DataNode, never a dict, so
  the two structured alternatives form a type of their own.
\<close>

datatype raw_value = RawText string | RawTexts "string list" | RawOther

type_synonym raw_mapping = "string \<rightharpoonup> raw_value"

datatype structured = OfDataset Dataset | OfDataNode DataNode

datatype data_arg = Structured structured | RawDict raw_mapping

text \<open>The argument \<open>metrics: BaseMetric | List[BaseMetric] | None\<close>.\<close>

datatype metrics_arg = NoMetrics | OneMetric Metric | MetricList "Metric list"

text \<open>
  What \<open>evaluate\<close> takes from outside itself: \<open>default_llm\<close> (which may raise),
  the built-in metric \<open>response_relevancy\<close>, and the two readings of the clock,
  \<open>time()\<close> before and after the scoring loop.
\<close>

record 'llm collaborators =
  default_llm :: "error + 'llm"
  response_relevancy :: Metric
  time_before :: real
  time_after :: real

text \<open>
  Modelled from the spec: the function \<open>from_dict\<close> of \<open>ragrank.dataset\<close> is
  missing. Spec sections 4.1 and 6: a raw mapping with the keys question (text),
  context (ordered sequence of text) and response (text) is converted to a single
  Record; a mapping with a missing or malformed key fails at the conversion.
\<close>

definition from_dict :: "raw_mapping \<Rightarrow> error + structured" where
  "from_dict data =
     (case data ''question'' of
        Some (RawText q) \<Rightarrow>
          (case data ''context'' of
             Some (RawTexts c) \<Rightarrow>
               (case data ''response'' of
                  Some (RawText r) \<Rightarrow>
                    Inr (OfDataNode \<lparr>question = q, context_texts = c, response = r\<rparr>)
                | _ \<Rightarrow> Inl (Propagated ''from_dict''))
           | _ \<Rightarrow> Inl (Propagated ''from_dict''))
      | _ \<Rightarrow> Inl (Propagated ''from_dict''))"

text \<open>
  How pydantic validates one entry of a dict against a field annotated \<open>str\<close> and
  against one annotated \<open>List[str]\<close>: the entry has to be there and of that kind.
\<close>

fun validate_str :: "raw_value option \<Rightarrow> string option" where
  "validate_str (Some (RawText t)) = Some t"
| "validate_str _ = None"

fun validate_str_list :: "raw_value option \<Rightarrow> string list option" where
  "validate_str_list (Some (RawTexts ts)) = Some ts"
| "validate_str_list _ = None"

text \<open>
  Modelled from the spec: the class \<open>DataNode\<close> of \<open>ragrank.dataset\<close> is missing,
  and with it the fields that the decorator \<open>@validate_call(validate_return=False)\<close>
  checks a dict against. Before the body of \<open>evaluate\<close> runs, pydantic validates
  each argument against its annotation. A Dataset or DataNode object, the LLM and the
  metrics pass as they are. A dict is tried against \<open>Dataset | DataNode | dict\<close>:
  a sequence of Records it is not; when its entries are the three fields of a Record
  (spec section 3) it becomes that DataNode; any other dict stays a dict, which the
  member \<open>dict\<close> accepts.
\<close>

definition validate_call :: "data_arg \<Rightarrow> data_arg" where
  "validate_call data =
     (case data of
        Structured s \<Rightarrow> Structured s
      | RawDict raw \<Rightarrow>
          (case (validate_str (raw ''question''), validate_str_list (raw ''context''),
                 validate_str (raw ''response'')) of
             (Some q, Some c, Some r) \<Rightarrow>
               Structured (OfDataNode \<lparr>question = q, context_texts = c, response = r\<rparr>)
           | _ \<Rightarrow> RawDict raw))"

text \<open>
  Modelled from the spec: the method \<open>DataNode.to_dataset\<close> of \<open>ragrank.dataset\<close>
  is missing. Spec section 4.1: a single Record is wrapped into a one-record Dataset.
\<close>

definition to_dataset :: "DataNode \<Rightarrow> Dataset" where
  "to_dataset node = [node]"

text \<open>
  Modelled from the spec: the method \<open>Dataset.with_progress\<close> of \<open>ragrank.dataset\<close>
  is missing. Spec section 4.1: progress reporting is a pass-through with no effect on
  the results; the records come in dataset order.
\<close>

definition with_progress :: "Dataset \<Rightarrow> string \<Rightarrow> DataNode list" where
  "with_progress d description = d"

text \<open>
  The inner comprehension \<open>[metric.score(datanode).score for datanode in ...]\<close> and
  the outer one \<open>for metric in metrics\<close>: the first call that raises ends both.
\<close>

fun score_all :: "Metric \<Rightarrow> DataNode list \<Rightarrow> error + real list" where
  "score_all metric [] = Inr []"
| "score_all metric (datanode # rest) =
     (case score metric datanode of
        Inl e \<Rightarrow> Inl e
      | Inr s \<Rightarrow>
          (case score_all metric rest of
             Inl e \<Rightarrow> Inl e
           | Inr ss \<Rightarrow> Inr (s # ss)))"

fun score_grid :: "Metric list \<Rightarrow> Dataset \<Rightarrow> error + real list list" where
  "score_grid [] data = Inr []"
| "score_grid (metric # rest) data =
     (case score_all metric (with_progress data ''Evaluating'') of
        Inl e \<Rightarrow> Inl e
      | Inr row \<Rightarrow>
          (case score_grid rest data of
             Inl e \<Rightarrow> Inl e
           | Inr rows \<Rightarrow> Inr (row # rows)))"

text \<open>
  \<open>evaluate\<close> as it is called: the decorator validates \<open>data\<close>, then the body
  runs on what the validation returned.
\<close>

definition evaluate ::
  "'llm collaborators \<Rightarrow> data_arg \<Rightarrow> 'llm option \<Rightarrow> metrics_arg \<Rightarrow> error + 'llm EvalResult" where
  "evaluate env data llm_arg metrics_arg =
     (case (case validate_call data of
              RawDict raw \<Rightarrow> from_dict raw
            | Structured s \<Rightarrow> Inr s) of
        Inl e \<Rightarrow> Inl e
      | Inr s \<Rightarrow>
          (let data' = (case s of OfDataNode node \<Rightarrow> to_dataset node | OfDataset d \<Rightarrow> d) in
           case (case llm_arg of None \<Rightarrow> default_llm env | Some l \<Rightarrow> Inr l) of
             Inl e \<Rightarrow> Inl e
           | Inr l \<Rightarrow>
               (let ms = (case metrics_arg of
                            NoMetrics \<Rightarrow> [response_relevancy env]
                          | OneMetric m \<Rightarrow> [m]
                          | MetricList ms \<Rightarrow> ms);
                    dt = time_before env
                in case score_grid ms data' of
                     Inl e \<Rightarrow> Inl e
                   | Inr ss \<Rightarrow>
                       (let delta = time_after env - dt
                        in EvalResult_init l ms data' delta ss))))"

section \<open>Example inputs\<close>

text \<open>The record of the spec's concrete scenario, and a metric that scores every
  record alike.\<close>

definition example_node :: DataNode where
  "example_node =
     \<lparr>question = ''Who is the 46th US President?'',
      context_texts = [''Joseph Robinette Biden is the 46th president.''],
      response = ''Joseph Robinette Biden''\<rparr>"

definition constant_metric :: "string \<Rightarrow> real \<Rightarrow> Metric" where
  "constant_metric n s = \<lparr>name = n, score = (\<lambda>datanode. Inr s)\<rparr>"

text \<open>Collaborators for the examples: the clock reads 10 before and 12 after the loop.\<close>

definition example_env :: "unit collaborators" where
  "example_env =
     \<lparr>default_llm = Inr (),
      response_relevancy = constant_metric ''response_relevancy'' 1,
      time_before = 10, time_after = 12\<rparr>"

text \<open>A metric whose score depends on the record, the raw mapping of
  \<open>example_node\<close>, and a raw mapping without the key context.\<close>

definition response_length_metric :: Metric where
  "response_length_metric =
     \<lparr>name = ''response_length'', score = (\<lambda>datanode. Inr (real (length (response datanode))))\<rparr>"

definition example_raw :: raw_mapping where
  "example_raw =
     [''question'' \<mapsto> RawText ''Who is the 46th US President?'',
      ''context'' \<mapsto> RawTexts [''Joseph Robinette Biden is the 46th president.''],
      ''response'' \<mapsto> RawText ''Joseph Robinette Biden'']"

definition example_malformed_raw :: raw_mapping where
  "example_malformed_raw =
     [''question'' \<mapsto> RawText ''Who is the 46th US President?'',
      ''response'' \<mapsto> RawText ''Joseph Robinette Biden'']"

text \<open>A printer of floats for the examples of the string rendering.\<close>

definition example_float_repr :: "real \<Rightarrow> string" where
  "example_float_repr x =
     (if x = 1 then ''1.0'' else if x = 2 then ''2.0'' else if x = 3 then ''3.0'' else ''4.0'')"

section \<open>Properties of construction\<close>

lemma check_scores_Inr_iff:
  "check_scores n ss = Inr u \<longleftrightarrow> (\<forall>s\<in>set ss. length s = n)"
  by (induction ss) auto

lemma check_scores_Inl:
  "check_scores n ss = Inl e \<Longrightarrow>
     e = ValidationError (ValueError datapoints_scores_message) \<and> (\<exists>s\<in>set ss. length s \<noteq> n)"
  by (induction ss) (auto split: if_splits)

lemma validator_Inr_iff:
  "validator self = Inr r \<longleftrightarrow>
     length (metrics self) = length (scores self) \<and>
     (\<forall>s\<in>set (scores self). length s = length (dataset self)) \<and> r = self"
  by (auto simp: validator_def Let_def check_scores_Inr_iff split: sum.splits
      dest: check_scores_Inl)

lemma EvalResult_init_Inr_iff:
  "EvalResult_init l ms d rt ss = Inr r \<longleftrightarrow>
     0 < rt \<and> length ms = length ss \<and> (\<forall>s\<in>set ss. length s = length d) \<and>
     r = \<lparr>llm = l, metrics = ms, dataset = d, scores = ss, response_time = rt\<rparr>"
  by (auto simp: EvalResult_init_def validator_Inr_iff)

lemma EvalResult_init_Inl:
  "EvalResult_init l ms d rt ss = Inl e \<Longrightarrow> \<exists>detail. e = ValidationError detail"
  by (auto simp: EvalResult_init_def validator_def Let_def split: if_splits sum.splits
      dest: check_scores_Inl)

text \<open>
  Claim C1. A constructed \<open>EvalResult\<close> holds exactly the values it was given, has
  as many score lists as metrics, and every score list is as long as the dataset.
  A construction that breaks one of the two equations fails with a
  \<open>ValidationError\<close>; nothing is cut or padded.
\<close>

theorem count_invariant:
  "(EvalResult_init l ms d rt ss = Inr r \<longrightarrow>
      r = \<lparr>llm = l, metrics = ms, dataset = d, scores = ss, response_time = rt\<rparr> \<and>
      length (metrics r) = length (scores r) \<and>
      (\<forall>i<length (scores r). length (scores r ! i) = length (dataset r))) \<and>
   (length ms \<noteq> length ss \<or> (\<exists>i<length ss. length (ss ! i) \<noteq> length d) \<longrightarrow>
      (\<exists>detail. EvalResult_init l ms d rt ss = Inl (ValidationError detail)))"
proof (intro conjI impI)
  assume ok: "EvalResult_init l ms d rt ss = Inr r"
  then show "r = \<lparr>llm = l, metrics = ms, dataset = d, scores = ss, response_time = rt\<rparr>"
    by (simp add: EvalResult_init_Inr_iff)
  from ok show "length (metrics r) = length (scores r)"
    by (simp add: EvalResult_init_Inr_iff)
  from ok show "\<forall>i<length (scores r). length (scores r ! i) = length (dataset r)"
    by (simp add: EvalResult_init_Inr_iff)
next
  assume bad: "length ms \<noteq> length ss \<or> (\<exists>i<length ss. length (ss ! i) \<noteq> length d)"
  have "\<not> (\<exists>r. EvalResult_init l ms d rt ss = Inr r)"
    using bad by (auto simp: EvalResult_init_Inr_iff)
  then obtain e where e: "EvalResult_init l ms d rt ss = Inl e"
    by (cases "EvalResult_init l ms d rt ss") auto
  from EvalResult_init_Inl [OF e] e
  show "\<exists>detail. EvalResult_init l ms d rt ss = Inl (ValidationError detail)"
    by auto
qed

theorem count_invariant_witness:
  "EvalResult_init () [constant_metric ''relevancy'' (1/2)] [example_node] 1 [[1/2]] =
     Inr \<lparr>llm = (), metrics = [constant_metric ''relevancy'' (1/2)], dataset = [example_node],
          scores = [[1/2]], response_time = 1\<rparr> \<and>
   (\<exists>detail.
      EvalResult_init () [constant_metric ''a'' 0, constant_metric ''b'' 0] [example_node] 1 [[1/2]]
        = Inl (ValidationError detail))"
proof -
  let ?m = "constant_metric ''relevancy'' (1/2)"
  let ?r = "\<lparr>llm = (), metrics = [?m], dataset = [example_node],
          scores = [[1/2]], response_time = 1\<rparr>"
  have ok: "EvalResult_init () [?m] [example_node] 1 [[1/2]] = Inr ?r"
    by (simp add: EvalResult_init_def validator_def)
  have bad: "length [constant_metric ''a'' 0, constant_metric ''b'' 0] \<noteq> length [[1/2::real]] \<or>
     (\<exists>i<length [[1/2::real]]. length ([[1/2::real]] ! i) \<noteq> length [example_node])"
    by simp
  from count_invariant [THEN conjunct1, rule_format, OF ok]
    count_invariant [where l = "()" and rt = 1, THEN conjunct2, rule_format, OF bad] ok
  show ?thesis by simp
qed

text \<open>
  Claim C3. A construction with \<open>response_time \<le> 0\<close> fails, and every constructed
  \<open>EvalResult\<close> has a \<open>response_time\<close> above \<open>0\<close>.
\<close>

theorem timing_positivity:
  "(rt \<le> 0 \<longrightarrow>
      EvalResult_init l ms d rt ss = Inl (ValidationError (GreaterThan ''response_time''))) \<and>
   (EvalResult_init l ms d rt ss = Inr r \<longrightarrow> response_time r = rt \<and> 0 < response_time r)"
  by (auto simp: EvalResult_init_Inr_iff) (simp add: EvalResult_init_def)

theorem timing_positivity_witness:
  "EvalResult_init () [] [] 0 [] = Inl (ValidationError (GreaterThan ''response_time'')) \<and>
   response_time \<lparr>llm = (), metrics = [], dataset = [], scores = [], response_time = 2\<rparr> = 2 \<and>
   (0::real) < response_time \<lparr>llm = (), metrics = [], dataset = [], scores = [], response_time = 2\<rparr>"
proof -
  have le: "(0::real) \<le> 0" by simp
  have ok: "EvalResult_init () [] [] 2 [] =
      Inr \<lparr>llm = (), metrics = [], dataset = [], scores = [], response_time = 2\<rparr>"
    by (simp add: EvalResult_init_def validator_def)
  from timing_positivity [where l = "()" and ms = "[]" and d = "[]" and ss = "[]",
      THEN conjunct1, rule_format, OF le]
    timing_positivity [THEN conjunct2, rule_format, OF ok]
  show ?thesis by simp
qed

text \<open>
  Claim C7 as stated fails: the messages are fixed texts. Two metrics against one
  score list and three metrics against none raise the same message, and neither
  message contains a digit.
\<close>

theorem message_names_counts_counterexample:
  "EvalResult_init () [constant_metric ''a'' 0, constant_metric ''b'' 0] [example_node] 1 [[1/2]]
     = Inl (ValidationError (ValueError metrics_scores_message)) \<and>
   EvalResult_init () [constant_metric ''a'' 0, constant_metric ''b'' 0, constant_metric ''c'' 0] [] 1 []
     = Inl (ValidationError (ValueError metrics_scores_message)) \<and>
   EvalResult_init () [constant_metric ''a'' 0] [example_node] 1 [[]]
     = Inl (ValidationError (ValueError datapoints_scores_message)) \<and>
   EvalResult_init () [constant_metric ''a'' 0] [] 1 [[1, 2, 3]]
     = Inl (ValidationError (ValueError datapoints_scores_message)) \<and>
   set metrics_scores_message \<inter> set ''0123456789'' = {} \<and>
   set datapoints_scores_message \<inter> set ''0123456789'' = {}"
  by (simp add: EvalResult_init_def validator_def metrics_scores_message_def
      datapoints_scores_message_def)

text \<open>
  Claim C7, amended. The error of a failed construction tells which check failed: the
  field constraint on \<open>response_time\<close>, else the metric/score count message when
  the two counts differ, else the datapoint/score message, in which case some score
  list is not as long as the dataset. The two messages differ; they are constants.
\<close>

theorem validation_error_message:
  assumes "EvalResult_init l ms d rt ss = Inl e"
  shows "e = ValidationError
           (if \<not> 0 < rt then GreaterThan ''response_time''
            else if length ms \<noteq> length ss then ValueError metrics_scores_message
            else ValueError datapoints_scores_message) \<and>
         (\<not> 0 < rt \<or> length ms \<noteq> length ss \<or> (\<exists>i<length ss. length (ss ! i) \<noteq> length d)) \<and>
         metrics_scores_message \<noteq> datapoints_scores_message"
proof -
  have "metrics_scores_message \<noteq> datapoints_scores_message"
    by (simp add: metrics_scores_message_def datapoints_scores_message_def)
  moreover have "e = ValidationError
           (if \<not> 0 < rt then GreaterThan ''response_time''
            else if length ms \<noteq> length ss then ValueError metrics_scores_message
            else ValueError datapoints_scores_message)"
    using assms
    by (auto simp: EvalResult_init_def validator_def Let_def split: if_splits sum.splits
        dest: check_scores_Inl)
  moreover have "\<not> 0 < rt \<or> length ms \<noteq> length ss \<or> (\<exists>i<length ss. length (ss ! i) \<noteq> length d)"
  proof (rule ccontr)
    assume "\<not> ?thesis"
    then have "EvalResult_init l ms d rt ss =
        Inr \<lparr>llm = l, metrics = ms, dataset = d, scores = ss, response_time = rt\<rparr>"
      by (auto simp: EvalResult_init_Inr_iff in_set_conv_nth)
    with assms show False by simp
  qed
  ultimately show ?thesis by blast
qed

theorem validation_error_message_witness:
  "EvalResult_init () [constant_metric ''a'' 0, constant_metric ''b'' 0] [example_node] 1 [[1/2]]
     = Inl (ValidationError (ValueError metrics_scores_message)) \<and>
   EvalResult_init () [constant_metric ''a'' 0] [example_node] 1 [[1, 2]]
     = Inl (ValidationError (ValueError datapoints_scores_message)) \<and>
   metrics_scores_message \<noteq> datapoints_scores_message"
proof -
  obtain e where e:
    "EvalResult_init () [constant_metric ''a'' 0, constant_metric ''b'' 0] [example_node] 1 [[1/2]]
       = Inl e"
    by (simp add: EvalResult_init_def validator_def)
  obtain e' where e':
    "EvalResult_init () [constant_metric ''a'' 0] [example_node] 1 [[1, 2]] = Inl e'"
    by (simp add: EvalResult_init_def validator_def)
  from validation_error_message [OF e] validation_error_message [OF e'] e e'
  show ?thesis by simp
qed

section \<open>Properties of \<open>evaluate\<close>\<close>

lemma score_all_Inr_iff:
  "score_all m ns = Inr row \<longleftrightarrow>
     length row = length ns \<and> (\<forall>j<length ns. score m (ns ! j) = Inr (row ! j))"
proof (induction ns arbitrary: row)
  case Nil
  then show ?case by auto
next
  case (Cons n ns)
  show ?case
  proof (cases row)
    case Nil
    then show ?thesis by (auto split: sum.splits)
  next
    case (Cons s row')
    then show ?thesis
      using Cons.IH [of row'] by (auto simp: All_less_Suc2 split: sum.splits)
  qed
qed

lemma score_grid_Inr_iff:
  "score_grid ms d = Inr ss \<longleftrightarrow>
     length ss = length ms \<and> (\<forall>i<length ms. score_all (ms ! i) d = Inr (ss ! i))"
proof (induction ms arbitrary: ss)
  case Nil
  then show ?case by auto
next
  case (Cons m ms)
  show ?case
  proof (cases ss)
    case Nil
    then show ?thesis by (auto split: sum.splits)
  next
    case (Cons row ss')
    then show ?thesis
      using Cons.IH [of ss']
      by (auto simp: All_less_Suc2 with_progress_def split: sum.splits)
  qed
qed

lemma score_all_total:
  "(\<forall>j<length ns. \<exists>s. score m (ns ! j) = Inr s) \<Longrightarrow> \<exists>row. score_all m ns = Inr row"
proof (induction ns)
  case Nil
  then show ?case by simp
next
  case (Cons n ns)
  from Cons.prems have "\<exists>s. score m n = Inr s" by (auto simp: All_less_Suc2)
  moreover from Cons.prems have "\<exists>row. score_all m ns = Inr row"
    by (intro Cons.IH) (auto simp: All_less_Suc2)
  ultimately show ?case by auto
qed

lemma score_grid_total:
  "(\<forall>i<length ms. \<exists>row. score_all (ms ! i) d = Inr row) \<Longrightarrow> \<exists>ss. score_grid ms d = Inr ss"
proof (induction ms)
  case Nil
  then show ?case by simp
next
  case (Cons m ms)
  from Cons.prems have "\<exists>row. score_all m d = Inr row" by (auto simp: All_less_Suc2)
  moreover from Cons.prems have "\<exists>ss. score_grid ms d = Inr ss"
    by (intro Cons.IH) (auto simp: All_less_Suc2)
  ultimately show ?case by (auto simp: with_progress_def)
qed

lemma evaluate_dataset_list:
  "evaluate env (Structured (OfDataset d)) llm_arg (MetricList ms) =
     (case (case llm_arg of None \<Rightarrow> default_llm env | Some l \<Rightarrow> Inr l) of
        Inl e \<Rightarrow> Inl e
      | Inr l \<Rightarrow>
          (case score_grid ms d of
             Inl e \<Rightarrow> Inl e
           | Inr ss \<Rightarrow> EvalResult_init l ms d (time_after env - time_before env) ss))"
  by (simp add: evaluate_def validate_call_def Let_def split: sum.splits option.splits)

text \<open>
  Claim C2. When \<open>evaluate\<close> returns a result for a dataset and a list of metrics,
  the result keeps both in their order, and \<open>scores[i][j]\<close> is the score that
  \<open>metrics[i]\<close> returns for the j-th record, for every metric \<open>i\<close> and record
  \<open>j\<close>. It does return a result when every scoring call returns, an LLM is given or
  the default one can be built, and the clock has advanced over the loop.
\<close>

theorem evaluate_ordering:
  "(evaluate env (Structured (OfDataset d)) llm_arg (MetricList ms) = Inr r \<longrightarrow>
      metrics r = ms \<and> dataset r = d \<and> length (scores r) = length ms \<and>
      (\<forall>i<length ms. length (scores r ! i) = length d \<and>
         (\<forall>j<length d. score (ms ! i) (d ! j) = Inr (scores r ! i ! j)))) \<and>
   ((\<forall>i<length ms. \<forall>j<length d. \<exists>s. score (ms ! i) (d ! j) = Inr s) \<and>
    (llm_arg = None \<longrightarrow> (\<exists>l. default_llm env = Inr l)) \<and>
    time_before env < time_after env \<longrightarrow>
      (\<exists>r. evaluate env (Structured (OfDataset d)) llm_arg (MetricList ms) = Inr r))"
proof (intro conjI impI)
  assume ok: "evaluate env (Structured (OfDataset d)) llm_arg (MetricList ms) = Inr r"
  then obtain l ss where grid: "score_grid ms d = Inr ss"
    and init: "EvalResult_init l ms d (time_after env - time_before env) ss = Inr r"
    by (auto simp: evaluate_dataset_list split: sum.splits)
  from init have r: "metrics r = ms" "dataset r = d" "scores r = ss"
    by (auto simp: EvalResult_init_Inr_iff)
  from r show "metrics r = ms" "dataset r = d" by simp_all
  from grid r show "length (scores r) = length ms"
    by (simp add: score_grid_Inr_iff)
  from grid r show "\<forall>i<length ms. length (scores r ! i) = length d \<and>
         (\<forall>j<length d. score (ms ! i) (d ! j) = Inr (scores r ! i ! j))"
    by (simp add: score_grid_Inr_iff score_all_Inr_iff)
next
  assume pre: "(\<forall>i<length ms. \<forall>j<length d. \<exists>s. score (ms ! i) (d ! j) = Inr s) \<and>
    (llm_arg = None \<longrightarrow> (\<exists>l. default_llm env = Inr l)) \<and>
    time_before env < time_after env"
  then obtain l where l: "(case llm_arg of None \<Rightarrow> default_llm env | Some l \<Rightarrow> Inr l) = Inr l"
    by (cases llm_arg) auto
  from pre have "\<forall>i<length ms. \<exists>row. score_all (ms ! i) d = Inr row"
    by (auto intro: score_all_total)
  then obtain ss where grid: "score_grid ms d = Inr ss"
    using score_grid_total by blast
  then have "length ms = length ss" "\<forall>s\<in>set ss. length s = length d"
    by (auto simp: score_grid_Inr_iff score_all_Inr_iff in_set_conv_nth)
  with pre have "\<exists>r. EvalResult_init l ms d (time_after env - time_before env) ss = Inr r"
    by (simp add: EvalResult_init_Inr_iff)
  with l grid show "\<exists>r. evaluate env (Structured (OfDataset d)) llm_arg (MetricList ms) = Inr r"
    by (simp add: evaluate_dataset_list)
qed

theorem evaluate_ordering_witness:
  "evaluate example_env (Structured (OfDataset [example_node, example_node\<lparr>response := ''Biden''\<rparr>]))
     None (MetricList [constant_metric ''a'' 3, response_length_metric]) =
     Inr \<lparr>llm = (), metrics = [constant_metric ''a'' 3, response_length_metric],
          dataset = [example_node, example_node\<lparr>response := ''Biden''\<rparr>],
          scores = [[3, 3], [22, 5]], response_time = 2\<rparr> \<and>
   score response_length_metric (example_node\<lparr>response := ''Biden''\<rparr>) = Inr 5 \<and>
   (\<exists>r. evaluate example_env (Structured (OfDataset [example_node, example_node\<lparr>response := ''Biden''\<rparr>]))
     None (MetricList [constant_metric ''a'' 3, response_length_metric]) = Inr r)"
proof -
  let ?d = "[example_node, example_node\<lparr>response := ''Biden''\<rparr>]"
  let ?ms = "[constant_metric ''a'' 3, response_length_metric]"
  let ?r = "\<lparr>llm = (), metrics = ?ms, dataset = ?d,
          scores = [[3, 3], [22, 5]], response_time = 2\<rparr>"
  have ok: "evaluate example_env (Structured (OfDataset ?d)) None (MetricList ?ms) = Inr ?r"
    by (simp add: evaluate_dataset_list example_env_def constant_metric_def
        response_length_metric_def example_node_def EvalResult_init_def validator_def
        with_progress_def)
  have pre: "(\<forall>i<length ?ms. \<forall>j<length ?d. \<exists>s. score (?ms ! i) (?d ! j) = Inr s) \<and>
      (None = (None :: unit option) \<longrightarrow> (\<exists>l. default_llm example_env = Inr l)) \<and>
      time_before example_env < time_after example_env"
    by (simp add: example_env_def constant_metric_def response_length_metric_def
        All_less_Suc2 less_Suc_eq)
  from evaluate_ordering [THEN conjunct1, rule_format, OF ok]
    evaluate_ordering [THEN conjunct2, rule_format, OF pre] ok
  show ?thesis
    by (simp add: response_length_metric_def)
qed

lemma evaluate_scores:
  "evaluate env (Structured s) llm_arg ms_arg = Inr r \<Longrightarrow>
     score_grid
       (case ms_arg of NoMetrics \<Rightarrow> [response_relevancy env] | OneMetric m \<Rightarrow> [m]
        | MetricList ms \<Rightarrow> ms)
       (case s of OfDataNode node \<Rightarrow> to_dataset node | OfDataset d \<Rightarrow> d) = Inr (scores r)"
  by (auto simp: evaluate_def validate_call_def Let_def EvalResult_init_Inr_iff split: sum.splits)

lemma validate_call_RawDict:
  "validate_call (RawDict raw) =
     (case from_dict raw of Inl e \<Rightarrow> RawDict raw | Inr s \<Rightarrow> Structured s)"
  by (auto simp: validate_call_def from_dict_def split: option.splits raw_value.splits)

lemma evaluate_RawDict:
  "evaluate env (RawDict raw) llm_arg ms_arg =
     (case from_dict raw of
        Inl e \<Rightarrow> Inl e
      | Inr s \<Rightarrow> evaluate env (Structured s) llm_arg ms_arg)"
proof (cases "from_dict raw")
  case (Inl e)
  then show ?thesis
    by (simp add: evaluate_def validate_call_RawDict)
next
  case (Inr s)
  then have "validate_call (RawDict raw) = validate_call (Structured s)"
    by (simp add: validate_call_RawDict) (simp add: validate_call_def)
  with Inr show ?thesis
    by (simp add: evaluate_def)
qed

text \<open>
  Claim C4. \<open>evaluate\<close> on a raw mapping does what \<open>evaluate\<close> does on
  \<open>from_dict\<close> of that mapping, with the same metrics and LLM: the same error or the
  same result, whether the validation of the arguments has turned the mapping into a
  DataNode or the body has called \<open>from_dict\<close> on it. When the two calls read the
  clock differently and both return, their scores grids are still equal.
\<close>

theorem evaluate_normalization:
  "evaluate env (RawDict raw) llm_arg ms_arg =
     (case from_dict raw of
        Inl e \<Rightarrow> Inl e
      | Inr s \<Rightarrow> evaluate env (Structured s) llm_arg ms_arg) \<and>
   (from_dict raw = Inr s \<and>
    evaluate env (RawDict raw) llm_arg ms_arg = Inr r \<and>
    evaluate (env\<lparr>time_before := t, time_after := t'\<rparr>) (Structured s) llm_arg ms_arg = Inr r' \<longrightarrow>
      scores r = scores r')"
proof (intro conjI impI)
  show "evaluate env (RawDict raw) llm_arg ms_arg =
     (case from_dict raw of
        Inl e \<Rightarrow> Inl e
      | Inr s \<Rightarrow> evaluate env (Structured s) llm_arg ms_arg)"
    by (rule evaluate_RawDict)
next
  assume "from_dict raw = Inr s \<and>
    evaluate env (RawDict raw) llm_arg ms_arg = Inr r \<and>
    evaluate (env\<lparr>time_before := t, time_after := t'\<rparr>) (Structured s) llm_arg ms_arg = Inr r'"
  then have s: "evaluate env (Structured s) llm_arg ms_arg = Inr r"
    and s': "evaluate (env\<lparr>time_before := t, time_after := t'\<rparr>) (Structured s) llm_arg ms_arg = Inr r'"
    by (auto simp: evaluate_RawDict)
  from evaluate_scores [OF s] evaluate_scores [OF s']
  show "scores r = scores r'" by (cases ms_arg) simp_all
qed

theorem evaluate_normalization_witness:
  "validate_call (RawDict example_raw) = Structured (OfDataNode example_node) \<and>
   from_dict example_raw = Inr (OfDataNode example_node) \<and>
   evaluate example_env (RawDict example_raw) None NoMetrics =
     Inr \<lparr>llm = (), metrics = [constant_metric ''response_relevancy'' 1],
          dataset = [example_node], scores = [[1]], response_time = 2\<rparr> \<and>
   evaluate (example_env\<lparr>time_before := 0, time_after := 5\<rparr>)
       (Structured (OfDataNode example_node)) None NoMetrics =
     Inr \<lparr>llm = (), metrics = [constant_metric ''response_relevancy'' 1],
          dataset = [example_node], scores = [[1]], response_time = 5\<rparr> \<and>
   validate_call (RawDict example_malformed_raw) = RawDict example_malformed_raw \<and>
   evaluate example_env (RawDict example_malformed_raw) None NoMetrics =
     Inl (Propagated ''from_dict'')"
proof -
  let ?m = "constant_metric ''response_relevancy'' 1"
  let ?r = "\<lparr>llm = (), metrics = [?m], dataset = [example_node], scores = [[1]],
      response_time = 2\<rparr>"
  let ?r' = "\<lparr>llm = (), metrics = [?m], dataset = [example_node], scores = [[1]],
      response_time = 5\<rparr>"
  have val: "validate_call (RawDict example_raw) = Structured (OfDataNode example_node)"
    by (simp add: validate_call_def example_raw_def example_node_def)
  have val': "validate_call (RawDict example_malformed_raw) = RawDict example_malformed_raw"
    by (simp add: validate_call_def example_malformed_raw_def)
  have conv: "from_dict example_raw = Inr (OfDataNode example_node)"
    by (simp add: from_dict_def example_raw_def example_node_def)
  have conv': "from_dict example_malformed_raw = Inl (Propagated ''from_dict'')"
    by (simp add: from_dict_def example_malformed_raw_def)
  have direct: "evaluate (example_env\<lparr>time_before := 0, time_after := 5\<rparr>)
       (Structured (OfDataNode example_node)) None NoMetrics = Inr ?r'"
    by (simp add: evaluate_def validate_call_def example_env_def constant_metric_def
        to_dataset_def with_progress_def EvalResult_init_def validator_def)
  have raw: "evaluate example_env (RawDict example_raw) None NoMetrics = Inr ?r"
    by (simp add: evaluate_def val example_env_def constant_metric_def
        to_dataset_def with_progress_def EvalResult_init_def validator_def)
  from evaluate_normalization [THEN conjunct1, of example_env example_malformed_raw None NoMetrics]
  have bad: "evaluate example_env (RawDict example_malformed_raw) None NoMetrics =
      Inl (Propagated ''from_dict'')"
    by (simp add: conv')
  from evaluate_normalization [THEN conjunct2, rule_format, OF conjI [OF conv conjI [OF raw direct]]]
    val val' conv raw direct bad
  show ?thesis by simp
qed

text \<open>
  Claim C5. \<open>evaluate(data, metrics=m)\<close> is \<open>evaluate(data, metrics=[m])\<close>.
\<close>

theorem evaluate_single_metric:
  "evaluate env data llm_arg (OneMetric m) = evaluate env data llm_arg (MetricList [m])"
  by (simp add: evaluate_def Let_def split: sum.splits option.splits data_arg.splits)

theorem evaluate_single_metric_witness:
  "evaluate example_env (Structured (OfDataset [example_node])) (Some ()) (OneMetric response_length_metric) =
     Inr \<lparr>llm = (), metrics = [response_length_metric], dataset = [example_node],
          scores = [[22]], response_time = 2\<rparr> \<and>
   evaluate example_env (Structured (OfDataset [example_node])) (Some ())
       (MetricList [response_length_metric]) =
     Inr \<lparr>llm = (), metrics = [response_length_metric], dataset = [example_node],
          scores = [[22]], response_time = 2\<rparr>"
proof -
  have "evaluate example_env (Structured (OfDataset [example_node])) (Some ())
       (MetricList [response_length_metric]) =
     Inr \<lparr>llm = (), metrics = [response_length_metric], dataset = [example_node],
          scores = [[22]], response_time = 2\<rparr>"
    by (simp add: evaluate_dataset_list example_env_def response_length_metric_def
        example_node_def EvalResult_init_def validator_def with_progress_def)
  with evaluate_single_metric [of example_env "Structured (OfDataset [example_node])" "Some ()"
      response_length_metric]
  show ?thesis by simp
qed

text \<open>
  Claim C6, amended. \<open>evaluate\<close> has no check that the metrics are non-empty: with
  an empty list of metrics, an LLM at hand and a clock that has advanced, it returns an
  \<open>EvalResult\<close> with no metrics and an empty scores grid.
\<close>

theorem evaluate_empty_metrics:
  "(case llm_arg of None \<Rightarrow> default_llm env | Some l \<Rightarrow> Inr l) = Inr l \<Longrightarrow>
   time_before env < time_after env \<Longrightarrow>
     evaluate env (Structured (OfDataset d)) llm_arg (MetricList []) =
       Inr \<lparr>llm = l, metrics = [], dataset = d, scores = [],
            response_time = time_after env - time_before env\<rparr>"
  by (simp add: evaluate_dataset_list EvalResult_init_def validator_def)

theorem evaluate_empty_metrics_witness:
  "evaluate example_env (Structured (OfDataset [])) (Some ()) (MetricList []) =
     Inr \<lparr>llm = (), metrics = [], dataset = [], scores = [], response_time = 2\<rparr>"
proof -
  have l: "(case Some () of None \<Rightarrow> default_llm example_env | Some l \<Rightarrow> Inr l) = Inr ()"
    by simp
  have t: "time_before example_env < time_after example_env"
    by (simp add: example_env_def)
  from evaluate_empty_metrics [OF l t, of "[]"] show ?thesis
    by (simp add: example_env_def)
qed

text \<open>
  Claim C6 as stated fails: a call with \<open>metrics=[]\<close> on the one-record dataset
  returns an \<open>EvalResult\<close> with zero metrics.
\<close>

theorem empty_metrics_rejected_counterexample:
  "evaluate example_env (Structured (OfDataset [example_node])) None (MetricList []) =
     Inr \<lparr>llm = (), metrics = [], dataset = [example_node], scores = [], response_time = 2\<rparr>"
  by (simp add: evaluate_dataset_list example_env_def EvalResult_init_def validator_def)

section \<open>Item assignment\<close>

lemma map_of_setitem: "map_of (setitem k v xs) = (map_of xs)(k \<mapsto> v)"
  by (induction xs) (auto simp: fun_eq_iff)

lemma keys_setitem:
  "map fst (setitem k v xs) = (if k \<in> fst ` set xs then map fst xs else map fst xs @ [k])"
  by (induction xs) force+

lemma length_setitem:
  "length (setitem k v xs) = (if k \<in> fst ` set xs then length xs else Suc (length xs))"
  using arg_cong [OF keys_setitem [of k v xs], of length] by (simp split: if_splits)

lemma set_setitem: "set (setitem k v xs) \<subseteq> insert (k, v) (set xs)"
  by (induction xs) (auto split: if_splits)

lemma remdups_snoc: "remdups (ys @ [x]) = remdups [y\<leftarrow>ys. y \<noteq> x] @ [x]"
  by (induction ys) auto

lemma keys_fold_setitem:
  "map fst (fold (\<lambda>i. setitem (key i) (val i)) js acc) =
     map fst acc @ rev (remdups (rev [k\<leftarrow>map key js. k \<notin> fst ` set acc]))"
proof (induction js arbitrary: acc)
  case Nil
  show ?case by simp
next
  case (Cons j js)
  show ?case
  proof (cases "key j \<in> fst ` set acc")
    case True
    then have "fst ` set (setitem (key j) (val j) acc) = fst ` set acc"
      using arg_cong [OF keys_setitem [of "key j" "val j" acc], of set] by simp
    with True show ?thesis
      by (simp add: Cons.IH keys_setitem)
  next
    case False
    then have keys: "fst ` set (setitem (key j) (val j) acc) = insert (key j) (fst ` set acc)"
      using arg_cong [OF keys_setitem [of "key j" "val j" acc], of set] by simp
    have "[k\<leftarrow>map key js. k \<notin> insert (key j) (fst ` set acc)] =
        [k\<leftarrow>[k\<leftarrow>map key js. k \<notin> fst ` set acc]. k \<noteq> key j]"
      by (simp add: conj_commute)
    with False show ?thesis
      by (simp add: Cons.IH keys_setitem keys remdups_snoc rev_filter del: filter_filter)
  qed
qed

lemma keys_set_fold_setitem:
  "fst ` set (fold (\<lambda>i. setitem (key i) (val i)) js acc) = fst ` set acc \<union> key ` set js"
  using arg_cong [OF keys_fold_setitem [of key val js acc], of set] by auto

lemma distinct_fold_setitem:
  "distinct (map fst acc) \<Longrightarrow> distinct (map fst (fold (\<lambda>i. setitem (key i) (val i)) js acc))"
  by (auto simp: keys_fold_setitem)

lemma length_fold_setitem:
  assumes "distinct (map fst acc)"
  shows "length (fold (\<lambda>i. setitem (key i) (val i)) js acc) = card (fst ` set acc \<union> key ` set js)"
proof -
  let ?res = "fold (\<lambda>i. setitem (key i) (val i)) js acc"
  have "length ?res = length (map fst ?res)" by simp
  also have "\<dots> = card (set (map fst ?res))"
    using distinct_fold_setitem [OF assms, of key val js] by (simp only: distinct_card)
  also have "\<dots> = card (fst ` set acc \<union> key ` set js)"
    by (simp add: keys_set_fold_setitem)
  finally show ?thesis .
qed

lemma map_of_fold_setitem_other:
  "k \<notin> key ` set js \<Longrightarrow> map_of (fold (\<lambda>i. setitem (key i) (val i)) js acc) k = map_of acc k"
  by (induction js arbitrary: acc) (auto simp: map_of_setitem)

lemma map_of_fold_setitem_last:
  "i < n \<Longrightarrow> (\<forall>k. i < k \<and> k < n \<longrightarrow> key k \<noteq> key i) \<Longrightarrow>
     map_of (fold (\<lambda>i. setitem (key i) (val i)) [0..<n] acc) (key i) = Some (val i)"
proof (induction n)
  case 0
  then show ?case by simp
next
  case (Suc n)
  show ?case
  proof (cases "i = n")
    case True
    then show ?thesis by (simp add: map_of_setitem)
  next
    case False
    with Suc.prems have "i < n" "key n \<noteq> key i" by auto
    moreover from Suc.prems have "\<forall>k. i < k \<and> k < n \<longrightarrow> key k \<noteq> key i" by auto
    ultimately show ?thesis
      using Suc.IH by (simp add: map_of_setitem)
  qed
qed

lemma last_with_same_key:
  fixes key :: "nat \<Rightarrow> 'k"
  assumes "i < n"
  shows "\<exists>k<n. i \<le> k \<and> key k = key i \<and> (\<forall>k'. k < k' \<and> k' < n \<longrightarrow> key k' \<noteq> key k)"
proof -
  let ?P = "\<lambda>k. k < n \<and> key k = key i"
  have P: "?P i" using assms by simp
  have bound: "\<forall>k. ?P k \<longrightarrow> k \<le> n" by simp
  let ?g = "Greatest ?P"
  have g: "?P ?g" using GreatestI_nat [of ?P, OF P] bound by blast
  have le: "\<And>k. ?P k \<Longrightarrow> k \<le> ?g" using Greatest_le_nat [of ?P] bound by blast
  from le [OF P] have "i \<le> ?g" .
  moreover have "\<forall>k'. ?g < k' \<and> k' < n \<longrightarrow> key k' \<noteq> key ?g"
  proof (intro allI impI notI)
    fix k' assume "?g < k' \<and> k' < n" "key k' = key ?g"
    with g have "?P k'" by simp
    from le [OF this] \<open>?g < k' \<and> k' < n\<close> show False by simp
  qed
  ultimately show ?thesis using g by blast
qed

lemma fold_setitem_distinct_keys:
  "distinct (map key js) \<Longrightarrow> key ` set js \<inter> fst ` set acc = {} \<Longrightarrow>
     fold (\<lambda>i. setitem (key i) (val i)) js acc = acc @ map (\<lambda>i. (key i, val i)) js"
proof (induction js arbitrary: acc)
  case Nil
  show ?case by simp
next
  case (Cons j js)
  have new: "setitem (key j) (val j) acc = acc @ [(key j, val j)]"
    using Cons.prems(2) by (induction acc) auto
  from Cons.prems have "distinct (map key js)"
    "key ` set js \<inter> fst ` set (acc @ [(key j, val j)]) = {}" by auto
  from Cons.IH [OF this] show ?case by (simp add: new)
qed

section \<open>The loops of \<open>to_dataframe\<close> and \<open>__repr__\<close> on a valid result\<close>

lemma to_dataframe_loop_fold:
  "(\<forall>i\<in>set js. i < length (metrics self) \<and> i < length (scores self) \<and>
       length (scores self ! i) = index_size df) \<Longrightarrow>
   to_dataframe_loop self js df =
     Inr (df\<lparr>columns :=
            fold (\<lambda>i. setitem (name (metrics self ! i)) (map Number (scores self ! i))) js
              (columns df)\<rparr>)"
  by (induction js arbitrary: df) (simp_all add: df_setitem_def)

lemma column_lengths_fold:
  "(\<forall>c\<in>set acc. length (snd c) = n) \<Longrightarrow> (\<forall>i\<in>set js. length (val i) = n) \<Longrightarrow>
   \<forall>c\<in>set (fold (\<lambda>i. setitem (key i) (val i)) js acc). length (snd c) = n"
proof (induction js arbitrary: acc)
  case Nil
  then show ?case by simp
next
  case (Cons j js)
  have "\<forall>c\<in>set (setitem (key j) (val j) acc). length (snd c) = n"
    using Cons.prems set_setitem [of "key j" "val j" acc] by auto
  with Cons.prems show ?case by (simp add: Cons.IH)
qed

lemma repr_dict_fold:
  "(\<forall>k\<in>set ks. k < length (metrics self) \<and> k < length (scores self) \<and>
       i < length (scores self ! k)) \<Longrightarrow>
   repr_dict self i ks acc =
     Inr (fold (\<lambda>k. setitem (name (metrics self ! k)) (scores self ! k ! i)) ks acc)"
  by (induction ks arbitrary: acc) simp_all

lemma repr_list_map:
  "(\<forall>i\<in>set js. \<forall>k<length (metrics self). k < length (scores self) \<and>
       i < length (scores self ! k)) \<Longrightarrow>
   repr_list self js =
     Inr (map (\<lambda>i. fold (\<lambda>k. setitem (name (metrics self ! k)) (scores self ! k ! i))
                 [0..<length (metrics self)] []) js)"
  by (induction js) (simp_all add: repr_dict_fold)

lemma repr_data_valid:
  assumes "EvalResult_init l ms d rt ss = Inr r"
  shows "repr_data r =
     Inr (map (\<lambda>j. fold (\<lambda>i. setitem (name (ms ! i)) (ss ! i ! j)) [0..<length ms] [])
            [0..<length d])"
proof -
  from assms have r: "metrics r = ms" "dataset r = d" "scores r = ss"
    and len: "length ms = length ss" "\<forall>s\<in>set ss. length s = length d"
    by (simp_all add: EvalResult_init_Inr_iff)
  have "\<forall>i\<in>set [0..<length (dataset r)]. \<forall>k<length (metrics r).
      k < length (scores r) \<and> i < length (scores r ! k)"
    using r len by simp
  from repr_list_map [OF this] r show ?thesis
    by (simp add: repr_data_def)
qed

lemma to_dataframe_valid:
  assumes "EvalResult_init l ms d rt ss = Inr r"
  shows "to_dataframe r =
     Inr ((Dataset_to_dataframe d)\<lparr>columns :=
            fold (\<lambda>i. setitem (name (ms ! i)) (map Number (ss ! i))) [0..<length ms]
              (columns (Dataset_to_dataframe d))\<rparr>)"
proof -
  from assms have r: "metrics r = ms" "dataset r = d" "scores r = ss"
    and len: "length ms = length ss" "\<forall>s\<in>set ss. length s = length d"
    by (simp_all add: EvalResult_init_Inr_iff)
  have "\<forall>i\<in>set [0..<length (metrics r)]. i < length (metrics r) \<and> i < length (scores r) \<and>
      length (scores r ! i) = index_size (Dataset_to_dataframe (dataset r))"
    using r len by (simp add: Dataset_to_dataframe_def)
  from to_dataframe_loop_fold [OF this] r show ?thesis
    by (simp add: to_dataframe_def)
qed

lemma names_by_index: "map (\<lambda>i. name (ms ! i)) [0..<length ms] = map name ms"
  by (rule nth_equalityI) simp_all

lemma name_set_by_index: "(\<lambda>i. name (ms ! i)) ` set [0..<length ms] = name ` set ms"
  using arg_cong [OF names_by_index [of ms], of set] by simp

section \<open>Properties of \<open>to_dataframe\<close>\<close>

text \<open>
  Claim C8, amended. On a constructed \<open>EvalResult\<close>, \<open>to_dataframe\<close> raises
  nothing and returns a table with as many rows as the dataset has records, every
  column of that length. Its columns are the dataset's three, then the metric names
  that are no dataset field, each once, in the order of their first occurrence; their
  number is the number of distinct names among the dataset fields and the metric names
  together. A metric name shows the scores of the last metric that bears it, also when
  it is the name of a dataset field; the columns no metric is named after are the
  dataset's own.
\<close>

theorem to_dataframe_shape:
  assumes "EvalResult_init l ms d rt ss = Inr r"
  shows "\<exists>df. to_dataframe r = Inr df \<and>
     index_size df = length d \<and>
     (\<forall>c\<in>set (columns df). length (snd c) = length d) \<and>
     map fst (columns df) =
       [''question'', ''context'', ''response''] @
       rev (remdups (rev [n\<leftarrow>map name ms. n \<notin> {''question'', ''context'', ''response''}])) \<and>
     length (columns df) = card ({''question'', ''context'', ''response''} \<union> name ` set ms) \<and>
     (\<forall>i<length ms. (\<forall>k. i < k \<and> k < length ms \<longrightarrow> name (ms ! k) \<noteq> name (ms ! i)) \<longrightarrow>
        map_of (columns df) (name (ms ! i)) = Some (map Number (ss ! i))) \<and>
     (\<forall>f. f \<notin> name ` set ms \<longrightarrow>
        map_of (columns df) f = map_of (columns (Dataset_to_dataframe d)) f)"
proof -
  let ?base = "columns (Dataset_to_dataframe d)"
  let ?cols = "fold (\<lambda>i. setitem (name (ms ! i)) (map Number (ss ! i))) [0..<length ms] ?base"
  let ?df = "(Dataset_to_dataframe d)\<lparr>columns := ?cols\<rparr>"
  from assms have len: "length ms = length ss" "\<forall>s\<in>set ss. length s = length d"
    by (simp_all add: EvalResult_init_Inr_iff)
  have base_keys: "map fst ?base = [''question'', ''context'', ''response'']"
    and base_set: "fst ` set ?base = {''question'', ''context'', ''response''}"
    and base_distinct: "distinct (map fst ?base)"
    and base_len: "\<forall>c\<in>set ?base. length (snd c) = length d"
    by (simp_all add: Dataset_to_dataframe_def)
  have 1: "to_dataframe r = Inr ?df" by (rule to_dataframe_valid [OF assms])
  have 2: "index_size ?df = length d" by (simp add: Dataset_to_dataframe_def)
  have "\<forall>i\<in>set [0..<length ms]. length (map Number (ss ! i)) = length d"
    using len by simp
  from column_lengths_fold [OF base_len this]
  have 3: "\<forall>c\<in>set (columns ?df). length (snd c) = length d" by simp
  have 4: "map fst (columns ?df) =
       [''question'', ''context'', ''response''] @
       rev (remdups (rev [n\<leftarrow>map name ms. n \<notin> {''question'', ''context'', ''response''}]))"
    using keys_fold_setitem [of "\<lambda>i. name (ms ! i)" "\<lambda>i. map Number (ss ! i)" "[0..<length ms]" ?base]
    by (simp only: base_keys base_set names_by_index) simp
  have 5: "length (columns ?df) = card ({''question'', ''context'', ''response''} \<union> name ` set ms)"
    using length_fold_setitem [OF base_distinct, of "\<lambda>i. name (ms ! i)" "\<lambda>i. map Number (ss ! i)"
        "[0..<length ms]"]
    by (simp only: base_set name_set_by_index) simp
  have 6: "\<forall>i<length ms. (\<forall>k. i < k \<and> k < length ms \<longrightarrow> name (ms ! k) \<noteq> name (ms ! i)) \<longrightarrow>
        map_of (columns ?df) (name (ms ! i)) = Some (map Number (ss ! i))"
    using map_of_fold_setitem_last [of _ "length ms" "\<lambda>i. name (ms ! i)" "\<lambda>i. map Number (ss ! i)" ?base]
    by simp
  have 7: "\<forall>f. f \<notin> name ` set ms \<longrightarrow> map_of (columns ?df) f = map_of ?base f"
    using map_of_fold_setitem_other [of _ "\<lambda>i. name (ms ! i)" "[0..<length ms]"
        "\<lambda>i. map Number (ss ! i)" ?base]
    by (simp only: name_set_by_index) simp
  from 1 2 3 4 5 6 7 show ?thesis by blast
qed

theorem to_dataframe_shape_witness:
  "to_dataframe \<lparr>llm = (), metrics = [constant_metric ''m'' 1, constant_metric ''n'' 2,
          constant_metric ''m'' 3], dataset = [example_node],
          scores = [[1], [2], [3]], response_time = 1\<rparr> =
     Inr \<lparr>index_size = 1,
          columns =
            [(''question'', [Text ''Who is the 46th US President?'']),
             (''context'', [TextList [''Joseph Robinette Biden is the 46th president.'']]),
             (''response'', [Text ''Joseph Robinette Biden'']),
             (''m'', [Number 3]), (''n'', [Number 2])]\<rparr> \<and>
   card ({''question'', ''context'', ''response''} \<union>
     name ` set [constant_metric ''m'' 1, constant_metric ''n'' 2, constant_metric ''m'' 3]) = 5"
proof -
  let ?ms = "[constant_metric ''m'' 1, constant_metric ''n'' 2, constant_metric ''m'' 3]"
  let ?r = "\<lparr>llm = (), metrics = ?ms, dataset = [example_node],
          scores = [[1], [2], [3]], response_time = 1\<rparr>"
  have ok: "EvalResult_init () ?ms [example_node] 1 [[1], [2], [3]] = Inr ?r"
    by (simp add: EvalResult_init_def validator_def)
  have run: "to_dataframe ?r =
     Inr \<lparr>index_size = 1,
          columns =
            [(''question'', [Text ''Who is the 46th US President?'']),
             (''context'', [TextList [''Joseph Robinette Biden is the 46th president.'']]),
             (''response'', [Text ''Joseph Robinette Biden'']),
             (''m'', [Number 3]), (''n'', [Number 2])]\<rparr>"
    by (simp add: to_dataframe_def Dataset_to_dataframe_def df_setitem_def constant_metric_def
        example_node_def upt_rec)
  from to_dataframe_shape [OF ok] run show ?thesis
    by auto
qed

text \<open>
  Claim C8 as stated fails: a metric named \<open>response\<close> takes the place of the
  dataset's column of that name, and the table has three columns, not the three
  dataset fields plus one distinct metric name.
\<close>

theorem column_count_counterexample:
  "EvalResult_init () [constant_metric ''response'' 0] [example_node] 1 [[0]] =
     Inr \<lparr>llm = (), metrics = [constant_metric ''response'' 0], dataset = [example_node],
          scores = [[0]], response_time = 1\<rparr> \<and>
   to_dataframe \<lparr>llm = (), metrics = [constant_metric ''response'' 0], dataset = [example_node],
          scores = [[0]], response_time = 1\<rparr> =
     Inr \<lparr>index_size = 1,
          columns =
            [(''question'', [Text ''Who is the 46th US President?'']),
             (''context'', [TextList [''Joseph Robinette Biden is the 46th president.'']]),
             (''response'', [Number 0])]\<rparr> \<and>
   length (columns (Dataset_to_dataframe [example_node])) = 3 \<and>
   card (name ` set [constant_metric ''response'' 0]) = 1 \<and>
   length
     [(''question'', [Text ''Who is the 46th US President?'']),
      (''context'', [TextList [''Joseph Robinette Biden is the 46th president.'']]),
      (''response'', [Number 0])] \<noteq>
     length (columns (Dataset_to_dataframe [example_node])) +
     card (name ` set [constant_metric ''response'' 0])"
  by (simp add: EvalResult_init_def validator_def to_dataframe_def Dataset_to_dataframe_def
      df_setitem_def constant_metric_def example_node_def)

section \<open>Properties of the string rendering\<close>

text \<open>
  Claim C9. On a constructed \<open>EvalResult\<close>, \<open>__repr__\<close> raises nothing and
  prints a list with one dict per record, in record order; \<open>__str__\<close> returns the
  same. The keys of each dict are the metric names in the order of their first
  occurrence, the name of metric \<open>i\<close> maps to \<open>scores[i][j]\<close> in the dict of
  record \<open>j\<close> whenever no later metric bears the same name, and with pairwise
  different names the dict is the list of the pairs of name and score in metric order.
\<close>

theorem repr_rendering:
  assumes "EvalResult_init l ms d rt ss = Inr r"
  shows "\<exists>data. repr_data r = Inr data \<and>
     EvalResult_repr str_repr float_repr r = Inr (list_str str_repr float_repr data) \<and>
     EvalResult_str str_repr float_repr r = EvalResult_repr str_repr float_repr r \<and>
     length data = length d \<and>
     (\<forall>j<length d.
        map fst (data ! j) = rev (remdups (rev (map name ms))) \<and>
        (\<forall>i<length ms. (\<forall>k. i < k \<and> k < length ms \<longrightarrow> name (ms ! k) \<noteq> name (ms ! i)) \<longrightarrow>
           map_of (data ! j) (name (ms ! i)) = Some (ss ! i ! j)) \<and>
        (distinct (map name ms) \<longrightarrow>
           data ! j = map (\<lambda>i. (name (ms ! i), ss ! i ! j)) [0..<length ms]))"
proof -
  let ?dict = "\<lambda>j. fold (\<lambda>i. setitem (name (ms ! i)) (ss ! i ! j)) [0..<length ms] []"
  let ?data = "map ?dict [0..<length d]"
  have data: "repr_data r = Inr ?data" by (rule repr_data_valid [OF assms])
  then have 1: "EvalResult_repr str_repr float_repr r = Inr (list_str str_repr float_repr ?data)"
    by (simp add: EvalResult_repr_def)
  have 2: "EvalResult_str str_repr float_repr r = EvalResult_repr str_repr float_repr r"
    by (simp add: EvalResult_str_def)
  have 3: "length ?data = length d" by simp
  have keys: "map fst (?dict j) = rev (remdups (rev (map name ms)))" for j
    using keys_fold_setitem [of "\<lambda>i. name (ms ! i)" "\<lambda>i. ss ! i ! j" "[0..<length ms]" "[]"]
    by (simp add: names_by_index)
  have last: "map_of (?dict j) (name (ms ! i)) = Some (ss ! i ! j)"
    if "i < length ms" "\<forall>k. i < k \<and> k < length ms \<longrightarrow> name (ms ! k) \<noteq> name (ms ! i)" for i j
    using map_of_fold_setitem_last [of i "length ms" "\<lambda>i. name (ms ! i)" "\<lambda>i. ss ! i ! j" "[]"] that
    by simp
  have pairs: "?dict j = map (\<lambda>i. (name (ms ! i), ss ! i ! j)) [0..<length ms]"
    if "distinct (map name ms)" for j
    using fold_setitem_distinct_keys [of "\<lambda>i. name (ms ! i)" "[0..<length ms]" "[]" "\<lambda>i. ss ! i ! j"] that
    by (simp add: names_by_index)
  have 4: "\<forall>j<length d.
        map fst (?data ! j) = rev (remdups (rev (map name ms))) \<and>
        (\<forall>i<length ms. (\<forall>k. i < k \<and> k < length ms \<longrightarrow> name (ms ! k) \<noteq> name (ms ! i)) \<longrightarrow>
           map_of (?data ! j) (name (ms ! i)) = Some (ss ! i ! j)) \<and>
        (distinct (map name ms) \<longrightarrow>
           ?data ! j = map (\<lambda>i. (name (ms ! i), ss ! i ! j)) [0..<length ms])"
    using keys last pairs by simp
  from data 1 2 3 4 show ?thesis by blast
qed

theorem repr_rendering_witness:
  "repr_data \<lparr>llm = (), metrics = [constant_metric ''a'' 1, constant_metric ''b'' 2],
       dataset = [example_node, example_node], scores = [[1, 3], [2, 4]], response_time = 1\<rparr> =
     Inr [[(''a'', 1), (''b'', 2)], [(''a'', 3), (''b'', 4)]] \<and>
   EvalResult_repr (\<lambda>s. s) example_float_repr
     \<lparr>llm = (), metrics = [constant_metric ''a'' 1, constant_metric ''b'' 2],
       dataset = [example_node, example_node], scores = [[1, 3], [2, 4]], response_time = 1\<rparr> =
     Inr ''[{a: 1.0, b: 2.0}, {a: 3.0, b: 4.0}]'' \<and>
   EvalResult_str (\<lambda>s. s) example_float_repr
     \<lparr>llm = (), metrics = [constant_metric ''a'' 1, constant_metric ''b'' 2],
       dataset = [example_node, example_node], scores = [[1, 3], [2, 4]], response_time = 1\<rparr> =
     Inr ''[{a: 1.0, b: 2.0}, {a: 3.0, b: 4.0}]''"
proof -
  let ?ms = "[constant_metric ''a'' 1, constant_metric ''b'' 2]"
  let ?r = "\<lparr>llm = (), metrics = ?ms, dataset = [example_node, example_node],
      scores = [[1, 3], [2, 4]], response_time = 1\<rparr>"
  have ok: "EvalResult_init () ?ms [example_node, example_node] 1 [[1, 3], [2, 4]] = Inr ?r"
    by (simp add: EvalResult_init_def validator_def)
  have run: "repr_data ?r = Inr [[(''a'', 1), (''b'', 2)], [(''a'', 3), (''b'', 4)]]"
    by (simp add: repr_data_def constant_metric_def upt_rec)
  have str: "list_str (\<lambda>s. s) example_float_repr [[(''a'', 1), (''b'', 2)], [(''a'', 3), (''b'', 4)]] =
      ''[{a: 1.0, b: 2.0}, {a: 3.0, b: 4.0}]''"
    by (simp add: list_str_def dict_str_def example_float_repr_def)
  from repr_rendering [OF ok, of "\<lambda>s. s" example_float_repr] run str show ?thesis
    by auto
qed

text \<open>
  Claim C10. In the string rendering, \<open>__repr__\<close> and \<open>__str__\<close> alike, the dict
  printed for every record has one entry per distinct metric name, and the name of any
  metric maps to the score of the last metric of that name.
\<close>

theorem repr_duplicate_names:
  assumes "EvalResult_init l ms d rt ss = Inr r"
  shows "\<exists>data. repr_data r = Inr data \<and>
     EvalResult_repr str_repr float_repr r = Inr (list_str str_repr float_repr data) \<and>
     EvalResult_str str_repr float_repr r = Inr (list_str str_repr float_repr data) \<and>
     length data = length d \<and>
     (\<forall>j<length d.
        length (data ! j) = card (name ` set ms) \<and>
        distinct (map fst (data ! j)) \<and>
        (\<forall>i<length ms. \<exists>k<length ms. i \<le> k \<and> name (ms ! k) = name (ms ! i) \<and>
           (\<forall>k'. k < k' \<and> k' < length ms \<longrightarrow> name (ms ! k') \<noteq> name (ms ! i)) \<and>
           map_of (data ! j) (name (ms ! i)) = Some (ss ! k ! j)))"
proof -
  let ?dict = "\<lambda>j. fold (\<lambda>i. setitem (name (ms ! i)) (ss ! i ! j)) [0..<length ms] []"
  let ?data = "map ?dict [0..<length d]"
  have data: "repr_data r = Inr ?data" by (rule repr_data_valid [OF assms])
  then have 1: "EvalResult_repr str_repr float_repr r = Inr (list_str str_repr float_repr ?data)"
    by (simp add: EvalResult_repr_def)
  then have 2: "EvalResult_str str_repr float_repr r = Inr (list_str str_repr float_repr ?data)"
    by (simp add: EvalResult_str_def)
  have len: "length (?dict j) = card (name ` set ms)" for j
    using length_fold_setitem [of "[]" "\<lambda>i. name (ms ! i)" "\<lambda>i. ss ! i ! j" "[0..<length ms]"]
    by (simp only: name_set_by_index) simp
  have dist: "distinct (map fst (?dict j))" for j
    using distinct_fold_setitem [of "[]" "\<lambda>i. name (ms ! i)" "\<lambda>i. ss ! i ! j" "[0..<length ms]"]
    by simp
  have last: "\<exists>k<length ms. i \<le> k \<and> name (ms ! k) = name (ms ! i) \<and>
           (\<forall>k'. k < k' \<and> k' < length ms \<longrightarrow> name (ms ! k') \<noteq> name (ms ! i)) \<and>
           map_of (?dict j) (name (ms ! i)) = Some (ss ! k ! j)"
    if i: "i < length ms" for i j
  proof -
    from last_with_same_key [OF i, of "\<lambda>i. name (ms ! i)"]
    obtain k where k: "k < length ms" "i \<le> k" "name (ms ! k) = name (ms ! i)"
      "\<forall>k'. k < k' \<and> k' < length ms \<longrightarrow> name (ms ! k') \<noteq> name (ms ! k)"
      by blast
    from map_of_fold_setitem_last [of k "length ms" "\<lambda>i. name (ms ! i)" "\<lambda>i. ss ! i ! j" "[]"] k
    have "map_of (?dict j) (name (ms ! k)) = Some (ss ! k ! j)" by simp
    with k show ?thesis by auto
  qed
  have 3: "length ?data = length d" by simp
  have 4: "\<forall>j<length d.
        length (?data ! j) = card (name ` set ms) \<and>
        distinct (map fst (?data ! j)) \<and>
        (\<forall>i<length ms. \<exists>k<length ms. i \<le> k \<and> name (ms ! k) = name (ms ! i) \<and>
           (\<forall>k'. k < k' \<and> k' < length ms \<longrightarrow> name (ms ! k') \<noteq> name (ms ! i)) \<and>
           map_of (?data ! j) (name (ms ! i)) = Some (ss ! k ! j))"
    using len dist last by simp
  from data 1 2 3 4 show ?thesis by blast
qed

theorem repr_duplicate_names_witness:
  "repr_data \<lparr>llm = (), metrics = [constant_metric ''a'' 1, constant_metric ''b'' 2,
       constant_metric ''a'' 3], dataset = [example_node], scores = [[1], [2], [3]],
       response_time = 1\<rparr> = Inr [[(''a'', 3), (''b'', 2)]] \<and>
   EvalResult_repr (\<lambda>s. s) example_float_repr
     \<lparr>llm = (), metrics = [constant_metric ''a'' 1, constant_metric ''b'' 2,
       constant_metric ''a'' 3], dataset = [example_node], scores = [[1], [2], [3]],
       response_time = 1\<rparr> = Inr ''[{a: 3.0, b: 2.0}]'' \<and>
   EvalResult_str (\<lambda>s. s) example_float_repr
     \<lparr>llm = (), metrics = [constant_metric ''a'' 1, constant_metric ''b'' 2,
       constant_metric ''a'' 3], dataset = [example_node], scores = [[1], [2], [3]],
       response_time = 1\<rparr> = Inr ''[{a: 3.0, b: 2.0}]'' \<and>
   card (name ` set [constant_metric ''a'' 1, constant_metric ''b'' 2, constant_metric ''a'' 3]) = 2"
proof -
  let ?ms = "[constant_metric ''a'' 1, constant_metric ''b'' 2, constant_metric ''a'' 3]"
  let ?r = "\<lparr>llm = (), metrics = ?ms, dataset = [example_node], scores = [[1], [2], [3]],
      response_time = 1\<rparr>"
  have ok: "EvalResult_init () ?ms [example_node] 1 [[1], [2], [3]] = Inr ?r"
    by (simp add: EvalResult_init_def validator_def)
  have run: "repr_data ?r = Inr [[(''a'', 3), (''b'', 2)]]"
    by (simp add: repr_data_def constant_metric_def upt_rec)
  have str: "list_str (\<lambda>s. s) example_float_repr [[(''a'', 3), (''b'', 2)]] =
      ''[{a: 3.0, b: 2.0}]''"
    by (simp add: list_str_def dict_str_def example_float_repr_def)
  from repr_duplicate_names [OF ok, of "\<lambda>s. s" example_float_repr] run str show ?thesis
    by auto
qed

end
